theory Spec2Isabelle
  imports Main
begin

unbundle bit_operations_syntax

section \<open>The VFS syscall layer: data model\<close>

text \<open>
  The development embeds \<^verbatim>\<open>namev.c\<close> and \<^verbatim>\<open>vfs_syscall.c\<close>. A non-NULL
  \<^verbatim>\<open>vnode_t *\<close> is a \<open>vid\<close>, a non-NULL \<^verbatim>\<open>file_t *\<close> is a \<open>fid\<close>; a pointer
  that the code tests against NULL is an \<open>option\<close>. C strings are \<open>string\<close>s (the
  characters before the terminating NUL); a \<^verbatim>\<open>char *\<close> into a path is the suffix of
  the path that starts there. C \<^verbatim>\<open>int\<close>s are \<open>int\<close>; no claim treated here depends
  on overflow.
\<close>

type_synonym vid = nat
type_synonym fid = nat

text \<open>
  Modelled from the spec: the file-type bits of \<^verbatim>\<open>vn_mode\<close> (\<^verbatim>\<open>fs/stat.h\<close> is not
  among the sources). The mode encodes one of regular, directory, character device and
  block device, and is read through predicates such as \<^verbatim>\<open>S_ISDIR\<close>.
\<close>

datatype vmode = S_IFREG | S_IFDIR | S_IFCHR | S_IFBLK

definition S_ISDIR :: "vmode \<Rightarrow> bool" where
  "S_ISDIR m = (m = S_IFDIR)"

record vnode =
  vn_mode :: vmode
  vn_len :: int
  vn_refcount :: int

record file_t =
  f_vnode :: vid
  f_mode :: int
  f_pos :: int
  f_refcount :: int

text \<open>
  The calls the layer makes, in the order it makes them: reference acquisitions and
  releases, the namespace lock, and the driver's vnode operations.
\<close>

datatype vop = Op_lookup | Op_create | Op_mkdir | Op_mknod | Op_rmdir | Op_unlink
  | Op_link | Op_read | Op_write | Op_readdir

datatype event = Vref vid | Vput vid | Fget fid | Fput fid | Lock | Unlock | Call vop vid

text \<open>
  What stops the kernel instead of returning: a failed \<^verbatim>\<open>KASSERT\<close>, an access to
  \<^verbatim>\<open>p_files\<close> outside its \<^verbatim>\<open>NFILES\<close> slots (undefined behaviour in C), a
  dereference of a NULL pointer, a call through a NULL operation pointer.
\<close>

datatype fault = Assertion_failed string | Out_of_bounds int | Null_deref | Null_call vop

record 'fs kstate =
  vnodes :: "vid \<Rightarrow> vnode"
  fs :: 'fs
  files :: "fid \<Rightarrow> file_t"
  p_files :: "fid option list"
  p_cwd :: vid
  vfs_root_vn :: vid
  vfsm :: bool
  trace :: "event list"

text \<open>
  A driver sees its own data \<open>'fs\<close> and the vnodes; it has no access to the descriptor
  table, the open files or the namespace lock. An operation that takes a counted name
  \<^verbatim>\<open>(name, len)\<close> is handed the first \<open>len\<close> characters of \<open>name\<close>. The buffers of
  \<^verbatim>\<open>read\<close>, \<^verbatim>\<open>write\<close> and \<^verbatim>\<open>readdir\<close> are user memory and are left out.
\<close>

type_synonym 'fs dstate = "'fs \<times> (vid \<Rightarrow> vnode)"

record 'fs vnode_ops =
  vop_lookup :: "('fs dstate \<Rightarrow> vid \<Rightarrow> string \<Rightarrow> int \<times> vid option \<times> 'fs dstate) option"
  vop_create :: "('fs dstate \<Rightarrow> vid \<Rightarrow> string \<Rightarrow> int \<times> vid option \<times> 'fs dstate) option"
  vop_mkdir :: "('fs dstate \<Rightarrow> vid \<Rightarrow> string \<Rightarrow> int \<times> 'fs dstate) option"
  vop_mknod :: "('fs dstate \<Rightarrow> vid \<Rightarrow> string \<Rightarrow> vmode \<Rightarrow> nat \<Rightarrow> int \<times> 'fs dstate) option"
  vop_rmdir :: "('fs dstate \<Rightarrow> vid \<Rightarrow> string \<Rightarrow> int \<times> 'fs dstate) option"
  vop_unlink :: "('fs dstate \<Rightarrow> vid \<Rightarrow> string \<Rightarrow> int \<times> 'fs dstate) option"
  vop_link :: "('fs dstate \<Rightarrow> vid \<Rightarrow> vid \<Rightarrow> string \<Rightarrow> int \<times> 'fs dstate) option"
  vop_read :: "('fs dstate \<Rightarrow> vid \<Rightarrow> int \<Rightarrow> nat \<Rightarrow> int \<times> 'fs dstate) option"
  vop_write :: "('fs dstate \<Rightarrow> vid \<Rightarrow> int \<Rightarrow> nat \<Rightarrow> int \<times> 'fs dstate) option"
  vop_readdir :: "('fs dstate \<Rightarrow> vid \<Rightarrow> int \<Rightarrow> int \<times> 'fs dstate) option"

text \<open>
  The constants of the headers that are not among the sources, and the operations table
  of every vnode (\<^verbatim>\<open>vn->vn_ops\<close>), are parameters of the embedding.
\<close>

record 'fs env =
  NAME_LEN :: nat
  MAXPATHLEN :: nat
  NFILES :: nat
  sizeof_dirent :: int
  vn_ops :: "vid \<Rightarrow> 'fs vnode_ops"

subsection \<open>Error numbers, flags\<close>

text \<open>
  Modelled from the spec: the error code space (\<^verbatim>\<open>errno.h\<close> is not among the
  sources; the customary values are used), the access-mode bits of an open file, the
  \<^verbatim>\<open>whence\<close> values of the spec and the \<^verbatim>\<open>O_CREAT\<close> flag.
\<close>

definition EPERM :: int where "EPERM = 1"
definition ENOENT :: int where "ENOENT = 2"
definition EBADF :: int where "EBADF = 9"
definition EEXIST :: int where "EEXIST = 17"
definition ENOTDIR :: int where "ENOTDIR = 20"
definition EISDIR :: int where "EISDIR = 21"
definition EINVAL :: int where "EINVAL = 22"
definition EMFILE :: int where "EMFILE = 24"
definition ENAMETOOLONG :: int where "ENAMETOOLONG = 36"
definition ENOTEMPTY :: int where "ENOTEMPTY = 39"

lemmas errno_defs = EPERM_def ENOENT_def EBADF_def EEXIST_def ENOTDIR_def EISDIR_def
  EINVAL_def EMFILE_def ENAMETOOLONG_def ENOTEMPTY_def

definition FMODE_READ :: int where "FMODE_READ = 1"
definition FMODE_WRITE :: int where "FMODE_WRITE = 2"
definition FMODE_APPEND :: int where "FMODE_APPEND = 4"

definition SEEK_SET :: int where "SEEK_SET = 0"
definition SEEK_CUR :: int where "SEEK_CUR = 1"
definition SEEK_END :: int where "SEEK_END = 2"

definition O_CREAT :: int where "O_CREAT = 256"

lemmas flag_defs = FMODE_READ_def FMODE_WRITE_def FMODE_APPEND_def SEEK_SET_def
  SEEK_CUR_def SEEK_END_def O_CREAT_def

subsection \<open>The external collaborators\<close>

definition log_event :: "event \<Rightarrow> 'fs kstate \<Rightarrow> 'fs kstate" where
  "log_event e s = s\<lparr>trace := trace s @ [e]\<rparr>"

definition vn_adjust :: "vid \<Rightarrow> int \<Rightarrow> 'fs kstate \<Rightarrow> 'fs kstate" where
  "vn_adjust v k s =
     s\<lparr>vnodes := (vnodes s)(v := (vnodes s v)\<lparr>vn_refcount := vn_refcount (vnodes s v) + k\<rparr>)\<rparr>"

definition f_adjust :: "fid \<Rightarrow> int \<Rightarrow> 'fs kstate \<Rightarrow> 'fs kstate" where
  "f_adjust f k s =
     s\<lparr>files := (files s)(f := (files s f)\<lparr>f_refcount := f_refcount (files s f) + k\<rparr>)\<rparr>"

text \<open>
  Modelled from the spec: the vnode cache's \<^verbatim>\<open>vref\<close> and \<^verbatim>\<open>vput\<close>, acquire and
  release of a vnode handle. Each is one step of the reference count.
\<close>

definition vref :: "vid \<Rightarrow> 'fs kstate \<Rightarrow> 'fs kstate" where
  "vref v s = log_event (Vref v) (vn_adjust v 1 s)"

definition vput :: "vid \<Rightarrow> 'fs kstate \<Rightarrow> 'fs kstate" where
  "vput v s = log_event (Vput v) (vn_adjust v (- 1) s)"

text \<open>
  Modelled from the spec: the open-file cache's \<^verbatim>\<open>fget\<close> and \<^verbatim>\<open>fput\<close>.
  \<^verbatim>\<open>fget(fd)\<close> is NULL for a descriptor outside \<open>0 \<le> fd < NFILES\<close> or with an empty
  slot, and otherwise acquires a reference to the slot's open file. \<^verbatim>\<open>fput\<close> releases
  one reference; the open file dies with its last reference, which gives up the file's
  hold on its vnode.
\<close>

definition fget :: "'fs env \<Rightarrow> int \<Rightarrow> 'fs kstate \<Rightarrow> fid option \<times> 'fs kstate" where
  "fget env fd s =
     (if fd < 0 \<or> int (NFILES env) \<le> fd then (None, s)
      else case p_files s ! nat fd of
        None \<Rightarrow> (None, s)
      | Some f \<Rightarrow> (Some f, log_event (Fget f) (f_adjust f 1 s)))"

definition fput :: "fid \<Rightarrow> 'fs kstate \<Rightarrow> 'fs kstate" where
  "fput f s =
     (let s1 = log_event (Fput f) (f_adjust f (- 1) s)
      in if f_refcount (files s1 f) = 0 then vn_adjust (f_vnode (files s1 f)) (- 1) s1 else s1)"

text \<open>
  Modelled from the spec: the descriptor allocator \<^verbatim>\<open>get_empty_fd\<close>. It returns the
  lowest free descriptor, which may be 0, and a negative value (\<^verbatim>\<open>-EMFILE\<close>) when the
  table is full.
\<close>

fun first_empty :: "fid option list \<Rightarrow> nat \<Rightarrow> nat option" where
  "first_empty [] i = None"
| "first_empty (x # xs) i = (if x = None then Some i else first_empty xs (Suc i))"

definition get_empty_fd :: "'fs kstate \<Rightarrow> int" where
  "get_empty_fd s = (case first_empty (p_files s) 0 of Some i \<Rightarrow> int i | None \<Rightarrow> - EMFILE)"

text \<open>Modelled from the spec: the namespace lock \<^verbatim>\<open>vfsm\<close>, taken and given back.\<close>

definition kmutex_lock :: "'fs kstate \<Rightarrow> 'fs kstate" where
  "kmutex_lock s = log_event Lock (s\<lparr>vfsm := True\<rparr>)"

definition kmutex_unlock :: "'fs kstate \<Rightarrow> 'fs kstate" where
  "kmutex_unlock s = log_event Unlock (s\<lparr>vfsm := False\<rparr>)"

text \<open>
  Reading and writing \<^verbatim>\<open>curproc->p_files[fd]\<close>. The array has \<^verbatim>\<open>NFILES\<close> slots; an
  index outside them is a fault.
\<close>

definition p_files_at :: "'fs env \<Rightarrow> 'fs kstate \<Rightarrow> int \<Rightarrow> fault + fid option" where
  "p_files_at env s fd =
     (if 0 \<le> fd \<and> fd < int (NFILES env) then Inr (p_files s ! nat fd)
      else Inl (Out_of_bounds fd))"

definition p_files_set :: "'fs env \<Rightarrow> int \<Rightarrow> fid option \<Rightarrow> 'fs kstate \<Rightarrow> fault + 'fs kstate" where
  "p_files_set env fd v s =
     (if 0 \<le> fd \<and> fd < int (NFILES env) then Inr (s\<lparr>p_files := (p_files s)[nat fd := v]\<rparr>)
      else Inl (Out_of_bounds fd))"

definition set_f_pos :: "fid \<Rightarrow> int \<Rightarrow> 'fs kstate \<Rightarrow> 'fs kstate" where
  "set_f_pos f p s = s\<lparr>files := (files s)(f := (files s f)\<lparr>f_pos := p\<rparr>)\<rparr>"

text \<open>Handing the driver its view of the state, and taking back what it returns.\<close>

definition drv_state :: "'fs kstate \<Rightarrow> 'fs dstate" where
  "drv_state s = (fs s, vnodes s)"

definition set_drv :: "'fs dstate \<Rightarrow> 'fs kstate \<Rightarrow> 'fs kstate" where
  "set_drv d s = s\<lparr>fs := fst d, vnodes := snd d\<rparr>"

section \<open>Name resolution (namev.c)\<close>

text \<open>
  Single-component lookup. \<^verbatim>\<open>strcmp(name, ".")\<close> compares the whole string at \<open>name\<close>,
  not its first \<open>len\<close> characters. The assertion on the \<open>lookup\<close> entry of the
  operations table stands before the test of the same entry.
\<close>

definition lookup ::
  "'fs env \<Rightarrow> vid \<Rightarrow> string \<Rightarrow> nat \<Rightarrow> 'fs kstate \<Rightarrow> fault + (int \<times> vid option \<times> 'fs kstate)" where
  "lookup env dir name len s =
     (if \<not> S_ISDIR (vn_mode (vnodes s dir)) then Inr (- ENOTDIR, None, s)
      else if NAME_LEN env < len then Inr (- ENAMETOOLONG, None, s)
      else if name = ''.'' \<or> len = 0 then Inr (0, Some dir, vref dir s)
      else if vop_lookup (vn_ops env dir) = None
        then Inl (Assertion_failed ''dir->vn_ops->lookup'')
      else case vop_lookup (vn_ops env dir) of
        Some f \<Rightarrow>
          (case f (drv_state s) dir (take len name) of
            (ret, result, d) \<Rightarrow>
              if ret < 0 then Inr (ret, result, set_drv d (log_event (Call Op_lookup dir) s))
              else Inr (0, result, set_drv d (log_event (Call Op_lookup dir) s)))
      | None \<Rightarrow> Inr (- ENOTDIR, None, s))"

text \<open>\<^verbatim>\<open>strchr\<close>: the offset of the first occurrence of a character, if any.\<close>

fun strchr :: "string \<Rightarrow> char \<Rightarrow> nat option" where
  "strchr [] c = None"
| "strchr (x # xs) c = (if x = c then Some 0 else map_option Suc (strchr xs c))"

text \<open>
  The loop of \<^verbatim>\<open>dir_namev\<close>. \<open>curr_seg\<close> is the rest of the path from the current
  segment on; \<^verbatim>\<open>curr_seg != end\<close> says that it is not empty. The result is the return
  value, the directory and the basename; the out-parameters are written on success only.
\<close>

function dir_namev_loop ::
  "'fs env \<Rightarrow> vid option \<Rightarrow> string \<Rightarrow> 'fs kstate
     \<Rightarrow> fault + (int \<times> vid option \<times> string \<times> 'fs kstate)" where
  "dir_namev_loop env dir curr_seg s =
     (if curr_seg = [] then Inr (0, dir, curr_seg, s)
      else (case dir of
        None \<Rightarrow> Inr (- ENOENT, None, [], s)
      | Some d \<Rightarrow>
          if \<not> S_ISDIR (vn_mode (vnodes s d)) then Inr (- ENOTDIR, None, [], vput d s)
          else (case strchr curr_seg CHR ''/'' of
            None \<Rightarrow> Inr (0, dir, curr_seg, s)
          | Some seg_length \<Rightarrow>
              if NAME_LEN env < seg_length then Inr (- ENAMETOOLONG, None, [], vput d s)
              else (case lookup env d curr_seg seg_length s of
                Inl flt \<Rightarrow> Inl flt
              | Inr (ret, result, s') \<Rightarrow>
                  if ret < 0 then Inr (ret, None, [], vput d s')
                  else dir_namev_loop env result (drop (Suc seg_length) curr_seg) (vput d s')))))"
  by pat_completeness auto
termination
  by (relation "measure (\<lambda>(env, dir, curr_seg, s). length curr_seg)") auto

declare dir_namev_loop.simps [simp del]

definition dir_namev ::
  "'fs env \<Rightarrow> string \<Rightarrow> vid option \<Rightarrow> 'fs kstate
     \<Rightarrow> fault + (int \<times> vid option \<times> string \<times> nat \<times> 'fs kstate)" where
  "dir_namev env pathname base s =
     (if MAXPATHLEN env < length pathname then Inr (- ENAMETOOLONG, None, [], 0, s)
      else if pathname = [] then Inr (- EINVAL, None, [], 0, s)
      else
        let (dir, rest) =
              (if hd pathname = CHR ''/'' then (vfs_root_vn s, tl pathname)
               else if base = None then (p_cwd s, pathname)
               else (the base, pathname))
        in (case dir_namev_loop env (Some dir) rest (vref dir s) of
             Inl flt \<Rightarrow> Inl flt
           | Inr (ret, res_vnode, name, s') \<Rightarrow>
               if ret < 0 then Inr (ret, None, [], 0, s')
               else Inr (0, res_vnode, name, length name, s')))"

definition open_namev ::
  "'fs env \<Rightarrow> string \<Rightarrow> int \<Rightarrow> vid option \<Rightarrow> 'fs kstate
     \<Rightarrow> fault + (int \<times> vid option \<times> 'fs kstate)" where
  "open_namev env pathname flag base s =
     (case dir_namev env pathname base s of
        Inl flt \<Rightarrow> Inl flt
      | Inr (ret, result, name, namelen, s1) \<Rightarrow>
          if ret < 0 then Inr (ret, None, s1)
          else (case result of
            None \<Rightarrow> Inl Null_deref
          | Some r \<Rightarrow>
              if \<not> S_ISDIR (vn_mode (vnodes s1 r)) then Inr (- ENOTDIR, None, vput r s1)
              else (case lookup env r name namelen (kmutex_lock s1) of
                Inl flt \<Rightarrow> Inl flt
              | Inr (ret, res_vnode, s2) \<Rightarrow>
                  if ret < 0 then
                    (if (flag AND O_CREAT) \<noteq> 0 then
                       (case vop_create (vn_ops env r) of
                          None \<Rightarrow> Inl (Null_call Op_create)
                        | Some f \<Rightarrow>
                            (case f (drv_state s2) r (take namelen name) of
                               (i, created, d) \<Rightarrow>
                                 let s3 = set_drv d (log_event (Call Op_create r) s2)
                                 in if i < 0 then Inr (i, None, kmutex_unlock (vput r s3))
                                    else Inr (0, created, kmutex_unlock (vput r s3))))
                     else Inr (ret, None, kmutex_unlock (vput r s2)))
                  else Inr (0, res_vnode, kmutex_unlock (vput r s2)))))"

section \<open>The system calls (vfs\_syscall.c)\<close>

text \<open>
  Every system call returns its \<^verbatim>\<open>int\<close> and the state it leaves, or a fault. The
  conditions are evaluated in the order of the source: in
  \<^verbatim>\<open>!curproc->p_files[fd] || fd<0 || fd>=NFILES\<close> the slot is read first.
\<close>

definition do_lseek :: "'fs env \<Rightarrow> int \<Rightarrow> int \<Rightarrow> int \<Rightarrow> 'fs kstate \<Rightarrow> fault + (int \<times> 'fs kstate)" where
  "do_lseek env fd offset whence s =
     (if fd < 0 \<or> int (NFILES env) < fd then Inr (- EBADF, s)
      else (case p_files_at env s fd of
        Inl flt \<Rightarrow> Inl flt
      | Inr slot \<Rightarrow>
          if slot = None then Inr (- EBADF, s)
          else if whence \<noteq> SEEK_SET \<and> whence \<noteq> SEEK_CUR \<and> whence \<noteq> SEEK_END
            then Inr (- EINVAL, s)
          else (case fget env fd s of
            (None, s1) \<Rightarrow> Inl (Assertion_failed ''file'')
          | (Some file, s1) \<Rightarrow>
              if whence = SEEK_SET then
                (if offset < 0 then Inr (- EINVAL, fput file s1)
                 else let s2 = fput file (set_f_pos file offset s1)
                      in Inr (f_pos (files s2 file), s2))
              else if whence = SEEK_CUR then
                (if f_pos (files s1 file) + offset < 0 then Inr (- EINVAL, fput file s1)
                 else let s2 = fput file (set_f_pos file (f_pos (files s1 file) + offset) s1)
                      in Inr (f_pos (files s2 file), s2))
              else
                (if vn_len (vnodes s1 (f_vnode (files s1 file))) + offset < 0
                   then Inr (- EINVAL, fput file s1)
                 else let s2 = fput file
                        (set_f_pos file (vn_len (vnodes s1 (f_vnode (files s1 file))) + offset) s1)
                      in Inr (f_pos (files s2 file), s2)))))"

definition do_read :: "'fs env \<Rightarrow> int \<Rightarrow> nat \<Rightarrow> 'fs kstate \<Rightarrow> fault + (int \<times> 'fs kstate)" where
  "do_read env fd nbytes s =
     (case p_files_at env s fd of
        Inl flt \<Rightarrow> Inl flt
      | Inr slot \<Rightarrow>
          if slot = None \<or> fd < 0 \<or> int (NFILES env) \<le> fd then Inr (- EBADF, s)
          else (case fget env fd s of
            (None, s1) \<Rightarrow> Inl Null_deref
          | (Some file, s1) \<Rightarrow>
              if (f_mode (files s1 file) AND FMODE_READ) = 0 then Inr (- EBADF, fput file s1)
              else if S_ISDIR (vn_mode (vnodes s1 (f_vnode (files s1 file))))
                then Inr (- EISDIR, fput file s1)
              else (case vop_read (vn_ops env (f_vnode (files s1 file))) of
                None \<Rightarrow> Inl (Null_call Op_read)
              | Some rd \<Rightarrow>
                  (case rd (drv_state s1) (f_vnode (files s1 file)) (f_pos (files s1 file)) nbytes of
                     (bytes, d) \<Rightarrow>
                       let s2 = set_drv d (log_event (Call Op_read (f_vnode (files s1 file))) s1)
                       in if bytes < 0 then Inr (bytes, fput file s2)
                          else Inr (bytes,
                                 fput file (set_f_pos file (f_pos (files s2 file) + bytes) s2))))))"

definition do_write :: "'fs env \<Rightarrow> int \<Rightarrow> nat \<Rightarrow> 'fs kstate \<Rightarrow> fault + (int \<times> 'fs kstate)" where
  "do_write env fd nbytes s =
     (case p_files_at env s fd of
        Inl flt \<Rightarrow> Inl flt
      | Inr slot \<Rightarrow>
          if slot = None \<or> fd < 0 \<or> int (NFILES env) < fd then Inr (- EBADF, s)
          else (case fget env fd s of
            (None, s1) \<Rightarrow> Inl Null_deref
          | (Some file, s1) \<Rightarrow>
              if (f_mode (files s1 file) AND FMODE_WRITE) = 0 then Inr (- EBADF, fput file s1)
              else (case (if (f_mode (files s1 file) AND FMODE_APPEND) \<noteq> 0
                         then do_lseek env fd 0 SEEK_END s1 else Inr (0, s1)) of
                Inl flt \<Rightarrow> Inl flt
              | Inr (end, s2) \<Rightarrow>
                  if end < 0 then Inr (end, fput file s2)
                  else (case vop_write (vn_ops env (f_vnode (files s2 file))) of
                    None \<Rightarrow> Inl (Assertion_failed ''file->f_vnode->vn_ops->write'')
                  | Some wr \<Rightarrow>
                      (case wr (drv_state s2) (f_vnode (files s2 file)) (f_pos (files s2 file)) nbytes of
                         (written, d) \<Rightarrow>
                           let s3 = set_drv d (log_event (Call Op_write (f_vnode (files s2 file))) s2)
                           in if written < 0 then Inr (written, fput file s3)
                              else Inr (written,
                                     fput file (set_f_pos file (f_pos (files s3 file) + written) s3)))))))"

definition do_close :: "'fs env \<Rightarrow> int \<Rightarrow> 'fs kstate \<Rightarrow> fault + (int \<times> 'fs kstate)" where
  "do_close env fd s =
     (if fd < 0 \<or> int (NFILES env) < fd then Inr (- EBADF, s)
      else (case fget env fd s of
        (None, s1) \<Rightarrow> Inr (- EBADF, s1)
      | (Some file, s1) \<Rightarrow>
          (case p_files_at env s1 fd of
             Inl flt \<Rightarrow> Inl flt
           | Inr slot \<Rightarrow>
               if slot = None then Inr (- EBADF, s1)
               else (case p_files_set env fd None (fput file (fput file s1)) of
                 Inl flt \<Rightarrow> Inl flt
               | Inr s2 \<Rightarrow> Inr (0, s2)))))"

definition do_dup :: "'fs env \<Rightarrow> int \<Rightarrow> 'fs kstate \<Rightarrow> fault + (int \<times> 'fs kstate)" where
  "do_dup env fd s =
     (case p_files_at env s fd of
        Inl flt \<Rightarrow> Inl flt
      | Inr slot \<Rightarrow>
          if slot = None \<or> fd < 0 \<or> int (NFILES env) < fd then Inr (- EBADF, s)
          else (case fget env fd s of
            (None, s1) \<Rightarrow> Inl (Assertion_failed ''file'')
          | (Some file, s1) \<Rightarrow>
              let dupfd = get_empty_fd s1
              in if dupfd = 0 then Inr (- EMFILE, fput file s1)
                 else (case p_files_set env dupfd (Some file) s1 of
                   Inl flt \<Rightarrow> Inl flt
                 | Inr s2 \<Rightarrow> Inr (dupfd, s2))))"

definition do_dup2 :: "'fs env \<Rightarrow> int \<Rightarrow> int \<Rightarrow> 'fs kstate \<Rightarrow> fault + (int \<times> 'fs kstate)" where
  "do_dup2 env ofd nfd s =
     (case p_files_at env s ofd of
        Inl flt \<Rightarrow> Inl flt
      | Inr slot \<Rightarrow>
          if slot = None \<or> ofd < 0 \<or> int (NFILES env) < ofd then Inr (- EBADF, s)
          else if nfd < 0 \<or> int (NFILES env) < nfd then Inr (- EBADF, s)
          else if nfd \<noteq> ofd then
            (case p_files_at env s nfd of
               Inl flt \<Rightarrow> Inl flt
             | Inr nslot \<Rightarrow>
                 (case (if nslot \<noteq> None then do_close env nfd s else Inr (0, s)) of
                    Inl flt \<Rightarrow> Inl flt
                  | Inr (ret, s1) \<Rightarrow>
                      if ret < 0 then Inr (ret, s1)
                      else (case fget env ofd s1 of
                        (file, s2) \<Rightarrow>
                          (case p_files_set env nfd file s2 of
                             Inl flt \<Rightarrow> Inl flt
                           | Inr s3 \<Rightarrow> Inr (nfd, s3)))))
          else Inr (nfd, s))"

definition do_getdent :: "'fs env \<Rightarrow> int \<Rightarrow> 'fs kstate \<Rightarrow> fault + (int \<times> 'fs kstate)" where
  "do_getdent env fd s =
     (if fd < 0 \<or> int (NFILES env) < fd then Inr (- EBADF, s)
      else (case p_files_at env s fd of
        Inl flt \<Rightarrow> Inl flt
      | Inr slot \<Rightarrow>
          if slot = None then Inr (- EBADF, s)
          else (case fget env fd s of
            (None, s1) \<Rightarrow> Inl (Assertion_failed ''file'')
          | (Some file, s1) \<Rightarrow>
              if \<not> S_ISDIR (vn_mode (vnodes s1 (f_vnode (files s1 file))))
                then Inr (- ENOTDIR, fput file s1)
              else (case vop_readdir (vn_ops env (f_vnode (files s1 file))) of
                None \<Rightarrow> Inl (Assertion_failed ''file->f_vnode->vn_ops->readdir'')
              | Some rdd \<Rightarrow>
                  (case rdd (drv_state s1) (f_vnode (files s1 file)) (f_pos (files s1 file)) of
                     (bytes, d) \<Rightarrow>
                       let s2 = set_drv d (log_event (Call Op_readdir (f_vnode (files s1 file))) s1);
                           s3 = set_f_pos file (f_pos (files s2 file) + bytes) s2
                       in if bytes \<le> 0 then Inr (bytes, fput file s3)
                          else Inr (sizeof_dirent env, fput file s3))))))"

text \<open>
  The path-based calls. A \<^verbatim>\<open>const char *path\<close> that the code tests against NULL is
  a \<open>string option\<close>. After a successful \<^verbatim>\<open>dir_namev\<close> the basename pointer is never
  NULL, so \<^verbatim>\<open>if (name)\<close> is taken.
\<close>

definition do_mknod ::
  "'fs env \<Rightarrow> string option \<Rightarrow> vmode \<Rightarrow> nat \<Rightarrow> 'fs kstate \<Rightarrow> fault + (int \<times> 'fs kstate)" where
  "do_mknod env path mode devid s =
     (case path of
        None \<Rightarrow> Inr (- EINVAL, s)
      | Some p \<Rightarrow>
          if MAXPATHLEN env < length p then Inr (- ENAMETOOLONG, s)
          else if mode \<noteq> S_IFCHR \<and> mode \<noteq> S_IFBLK then Inr (- EINVAL, s)
          else (case dir_namev env p None s of
            Inl flt \<Rightarrow> Inl flt
          | Inr (ret, res_vnode, name, namelen, s1) \<Rightarrow>
              if ret < 0 then Inr (ret, s1)
              else (case res_vnode of
                None \<Rightarrow> Inr (- ENOENT, s1)
              | Some rv \<Rightarrow>
                  if NAME_LEN env < namelen then Inr (- ENAMETOOLONG, s1)
                  else if \<not> S_ISDIR (vn_mode (vnodes s1 rv)) then Inr (- ENOTDIR, vput rv s1)
                  else if vop_lookup (vn_ops env rv) = None
                    then Inl (Assertion_failed ''res_vnode->vn_ops->lookup'')
                  else (case lookup env rv name namelen s1 of
                    Inl flt \<Rightarrow> Inl flt
                  | Inr (ret2, result, s2) \<Rightarrow>
                      if ret2 = 0 then
                        (case result of
                           None \<Rightarrow> Inl Null_deref
                         | Some r \<Rightarrow> Inr (- EEXIST, vput r (vput rv s2)))
                      else
                        (case vop_mknod (vn_ops env rv) of
                           None \<Rightarrow> Inl (Assertion_failed ''res_vnode->vn_ops->mknod'')
                         | Some mk \<Rightarrow>
                             (case mk (drv_state (vput rv s2)) rv (take namelen name) mode devid of
                                (res, d) \<Rightarrow>
                                  Inr (res, set_drv d (log_event (Call Op_mknod rv) (vput rv s2)))))))))"

definition do_mkdir :: "'fs env \<Rightarrow> string option \<Rightarrow> 'fs kstate \<Rightarrow> fault + (int \<times> 'fs kstate)" where
  "do_mkdir env path s =
     (case path of
        None \<Rightarrow> Inr (- EINVAL, s)
      | Some p \<Rightarrow>
          if MAXPATHLEN env < length p then Inr (- ENAMETOOLONG, s)
          else (case dir_namev env p None s of
            Inl flt \<Rightarrow> Inl flt
          | Inr (ret, res_vnode, name, namelen, s1) \<Rightarrow>
              if ret < 0 then Inr (ret, s1)
              else (case res_vnode of
                None \<Rightarrow> Inr (- ENOENT, s1)
              | Some rv \<Rightarrow>
                  if \<not> S_ISDIR (vn_mode (vnodes s1 rv)) then Inr (- ENOTDIR, vput rv s1)
                  else if NAME_LEN env < namelen then Inr (- ENAMETOOLONG, vput rv s1)
                  else if vop_lookup (vn_ops env rv) = None
                    then Inl (Assertion_failed ''res_vnode->vn_ops->lookup'')
                  else (case lookup env rv name namelen s1 of
                    Inl flt \<Rightarrow> Inl flt
                  | Inr (ret2, result, s2) \<Rightarrow>
                      if ret2 = 0 then
                        (case result of
                           None \<Rightarrow> Inl Null_deref
                         | Some r \<Rightarrow> Inr (- EEXIST, vput r (vput rv s2)))
                      else
                        (case vop_mkdir (vn_ops env rv) of
                           None \<Rightarrow> Inl (Assertion_failed ''res_vnode->vn_ops->mkdir'')
                         | Some mk \<Rightarrow>
                             (case mk (drv_state s2) rv (take namelen name) of
                                (ret3, d) \<Rightarrow>
                                  Inr (ret3, vput rv (set_drv d (log_event (Call Op_mkdir rv) s2)))))))))"

definition do_rmdir :: "'fs env \<Rightarrow> string \<Rightarrow> 'fs kstate \<Rightarrow> fault + (int \<times> 'fs kstate)" where
  "do_rmdir env path s =
     (if MAXPATHLEN env < length path then Inr (- ENAMETOOLONG, s)
      else (case dir_namev env path None s of
        Inl flt \<Rightarrow> Inl flt
      | Inr (ret, res_vnode, name, namelen, s1) \<Rightarrow>
          if ret < 0 then Inr (ret, s1)
          else (case res_vnode of
            None \<Rightarrow> Inr (- ENOENT, s1)
          | Some rv \<Rightarrow>
              if NAME_LEN env < namelen then Inr (- ENAMETOOLONG, vput rv s1)
              else if \<not> S_ISDIR (vn_mode (vnodes s1 rv)) then Inr (- ENOTDIR, vput rv s1)
              else if name = ''.'' then Inr (- EINVAL, vput rv s1)
              else if name = ''..'' then Inr (- ENOTEMPTY, vput rv s1)
              else (case vop_rmdir (vn_ops env rv) of
                None \<Rightarrow> Inr (- ENOTDIR, vput rv s1)
              | Some rm \<Rightarrow>
                  (case rm (drv_state s1) rv (take namelen name) of
                     (ret3, d) \<Rightarrow>
                       Inr (ret3, vput rv (set_drv d (log_event (Call Op_rmdir rv) s1))))))))"

definition do_unlink :: "'fs env \<Rightarrow> string option \<Rightarrow> 'fs kstate \<Rightarrow> fault + (int \<times> 'fs kstate)" where
  "do_unlink env path s =
     (case path of
        None \<Rightarrow> Inr (- EINVAL, s)
      | Some p \<Rightarrow>
          if MAXPATHLEN env < length p then Inr (- ENAMETOOLONG, s)
          else (case dir_namev env p None s of
            Inl flt \<Rightarrow> Inl flt
          | Inr (ret, res_vnode, name, namelen, s1) \<Rightarrow>
              if ret < 0 then Inr (ret, s1)
              else if NAME_LEN env < namelen then Inr (- ENAMETOOLONG, s1)
              else (case res_vnode of
                None \<Rightarrow> Inl Null_deref
              | Some rv \<Rightarrow>
                  (case lookup env rv name namelen s1 of
                     Inl flt \<Rightarrow> Inl flt
                   | Inr (ret1, result, s2) \<Rightarrow>
                       if ret1 < 0 then Inr (ret1, vput rv s2)
                       else (case result of
                         None \<Rightarrow> Inl Null_deref
                       | Some r \<Rightarrow>
                           if S_ISDIR (vn_mode (vnodes s2 r)) then Inr (- EPERM, vput r (vput rv s2))
                           else (case vop_unlink (vn_ops env rv) of
                             None \<Rightarrow> Inl (Null_call Op_unlink)
                           | Some ul \<Rightarrow>
                               (case ul (drv_state s2) rv (take namelen name) of
                                  (ret2, d) \<Rightarrow>
                                    Inr (ret2,
                                      vput r (vput rv (set_drv d (log_event (Call Op_unlink rv) s2)))))))))))"

definition do_link ::
  "'fs env \<Rightarrow> string option \<Rightarrow> string option \<Rightarrow> 'fs kstate \<Rightarrow> fault + (int \<times> 'fs kstate)" where
  "do_link env frompath topath s =
     (case (frompath, topath) of
        (Some fr, Some t) \<Rightarrow>
          if MAXPATHLEN env < length fr \<or> MAXPATHLEN env < length t then Inr (- ENAMETOOLONG, s)
          else (case open_namev env fr 0 None s of
            Inl flt \<Rightarrow> Inl flt
          | Inr (ret1, fromNode, s1) \<Rightarrow>
              if ret1 < 0 then Inr (ret1, s1)
              else (case dir_namev env t None s1 of
                Inl flt \<Rightarrow> Inl flt
              | Inr (ret2, toNode, name, namelen, s2) \<Rightarrow>
                  (case (fromNode, toNode) of
                     (Some fromv, Some tov) \<Rightarrow>
                       if ret2 < 0 then Inr (ret2, vput fromv s2)
                       else (case lookup env tov name namelen s2 of
                         Inl flt \<Rightarrow> Inl flt
                       | Inr (ret3, result, s3) \<Rightarrow>
                           if ret3 = 0 then
                             (case result of
                                None \<Rightarrow> Inl Null_deref
                              | Some r \<Rightarrow> Inr (- EEXIST, vput r (vput tov (vput fromv s3))))
                           else (case vop_link (vn_ops env tov) of
                             None \<Rightarrow> Inr (- ENOTDIR, vput tov (vput fromv s3))
                           | Some lk \<Rightarrow>
                               (case lk (drv_state s3) fromv tov (take namelen name) of
                                  (ret4, d) \<Rightarrow>
                                    Inr (ret4,
                                      vput tov (vput fromv (set_drv d (log_event (Call Op_link tov) s3)))))))
                   | (Some fromv, None) \<Rightarrow>
                       if ret2 < 0 then Inr (ret2, vput fromv s2) else Inl Null_deref
                   | (None, _) \<Rightarrow> Inl Null_deref)))
      | _ \<Rightarrow> Inr (- EINVAL, s))"

section \<open>Properties read off the trace\<close>

text \<open>
  The driver operations that change the namespace, and the two readings of a trace that
  the locking discipline needs: whether \<^verbatim>\<open>vfsm\<close> is held after a run of events, and
  whether every namespace mutation in the run is called with \<^verbatim>\<open>vfsm\<close> held
  (\<open>mutations_locked\<close>), or every one with \<^verbatim>\<open>vfsm\<close> not held
  (\<open>mutations_unlocked\<close>). The argument \<open>h\<close> says whether the lock is held at the
  start of the run.
\<close>

fun is_mutation :: "vop \<Rightarrow> bool" where
  "is_mutation Op_create = True"
| "is_mutation Op_mkdir = True"
| "is_mutation Op_mknod = True"
| "is_mutation Op_rmdir = True"
| "is_mutation Op_unlink = True"
| "is_mutation Op_link = True"
| "is_mutation Op_lookup = False"
| "is_mutation Op_read = False"
| "is_mutation Op_write = False"
| "is_mutation Op_readdir = False"

fun held_after :: "bool \<Rightarrow> event list \<Rightarrow> bool" where
  "held_after h [] = h"
| "held_after h (Lock # es) = held_after True es"
| "held_after h (Unlock # es) = held_after False es"
| "held_after h (e # es) = held_after h es"

fun mutations_at :: "bool \<Rightarrow> bool \<Rightarrow> event list \<Rightarrow> bool" where
  "mutations_at w h [] = True"
| "mutations_at w h (Lock # es) = mutations_at w True es"
| "mutations_at w h (Unlock # es) = mutations_at w False es"
| "mutations_at w h (Call vop v # es) = ((h = w \<or> \<not> is_mutation vop) \<and> mutations_at w h es)"
| "mutations_at w h (e # es) = mutations_at w h es"

definition mutations_locked :: "bool \<Rightarrow> event list \<Rightarrow> bool" where
  "mutations_locked h es = mutations_at True h es"

definition mutations_unlocked :: "bool \<Rightarrow> event list \<Rightarrow> bool" where
  "mutations_unlocked h es = mutations_at False h es"

text \<open>An event that neither touches the lock nor changes the namespace.\<close>

fun quiet :: "event \<Rightarrow> bool" where
  "quiet Lock = False"
| "quiet Unlock = False"
| "quiet (Call vop v) = (\<not> is_mutation vop)"
| "quiet e = True"

text \<open>
  Two summaries of what a piece of code adds to the trace. A quiet step leaves the lock
  as it was and adds only quiet events. A lock run for \<open>w\<close> adds events that account
  for the lock's state and among which every namespace mutation is called with the lock
  in state \<open>w\<close>.
\<close>

definition quiet_step :: "'fs kstate \<Rightarrow> 'fs kstate \<Rightarrow> bool" where
  "quiet_step s s' = (vfsm s' = vfsm s \<and> (\<exists>evs. trace s' = trace s @ evs \<and> list_all quiet evs))"

definition lock_run :: "bool \<Rightarrow> 'fs kstate \<Rightarrow> 'fs kstate \<Rightarrow> bool" where
  "lock_run w s s' =
     (\<exists>evs. trace s' = trace s @ evs \<and> vfsm s' = held_after (vfsm s) evs
        \<and> mutations_at w (vfsm s) evs)"

section \<open>The contract of dir\_namev, in the words of the specification\<close>

text \<open>
  The components of a path are its pieces between slashes: \<open>a/b/c\<close> has the components
  \<open>a\<close>, \<open>b\<close>, \<open>c\<close>, and a path that ends in a slash has an empty last component. The
  last component is the basename; the others are the intermediate components.
\<close>

fun split_path :: "string \<Rightarrow> string list" where
  "split_path [] = [[]]"
| "split_path (c # cs) =
     (if c = CHR ''/'' then [] # split_path cs
      else (case split_path cs of
              w # ws \<Rightarrow> (c # w) # ws
            | [] \<Rightarrow> [[c]]))"

text \<open>
  Resolving the intermediate components from a starting directory: each one is looked
  up in the current directory, which must be a directory and is released afterwards;
  the result of the lookup is adopted. A component stands in the path followed by its
  slash, and that is how \<open>lookup\<close> is handed it: the name with the slash, the length of
  the component alone.
\<close>

fun resolve_dirs ::
  "'fs env \<Rightarrow> vid option \<Rightarrow> string list \<Rightarrow> 'fs kstate \<Rightarrow> (vid option \<times> 'fs kstate) option" where
  "resolve_dirs env dir [] s = Some (dir, s)"
| "resolve_dirs env dir (c # cs) s =
     (case dir of
        None \<Rightarrow> None
      | Some d \<Rightarrow>
          if S_ISDIR (vn_mode (vnodes s d)) \<and> length c \<le> NAME_LEN env then
            (case lookup env d (c @ ''/'') (length c) s of
               Inl flt \<Rightarrow> None
             | Inr (ret, result, s') \<Rightarrow>
                 if ret < 0 then None else resolve_dirs env result cs (vput d s'))
          else None)"

section \<open>A small file system to run the code on\<close>

text \<open>
  A driver in the manner of a RAM file system: its data is the list of directory
  entries (directory, name, vnode). \<open>lookup\<close> acquires a reference to the vnode it
  finds; \<open>create\<close>, \<open>mkdir\<close> and \<open>mknod\<close> add an entry for a fresh vnode; \<open>link\<close>
  adds an entry for a given vnode; \<open>rmdir\<close> and \<open>unlink\<close> drop the entries of a name;
  \<open>readdir\<close> reports an error.
\<close>

type_synonym ramfs = "(vid \<times> string \<times> vid) list"

fun ramfs_find :: "ramfs \<Rightarrow> vid \<Rightarrow> string \<Rightarrow> vid option" where
  "ramfs_find [] d n = None"
| "ramfs_find ((d', n', v) # es) d n = (if d' = d \<and> n' = n then Some v else ramfs_find es d n)"

definition ramfs_lookup :: "ramfs dstate \<Rightarrow> vid \<Rightarrow> string \<Rightarrow> int \<times> vid option \<times> ramfs dstate" where
  "ramfs_lookup st d n =
     (case ramfs_find (fst st) d n of
        None \<Rightarrow> (- ENOENT, None, st)
      | Some v \<Rightarrow>
          (0, Some v, (fst st, (snd st)(v := (snd st v)\<lparr>vn_refcount := vn_refcount (snd st v) + 1\<rparr>))))"

definition ramfs_add :: "ramfs dstate \<Rightarrow> vid \<Rightarrow> string \<Rightarrow> vmode \<Rightarrow> int \<Rightarrow> ramfs dstate" where
  "ramfs_add st d n m refs =
     ((d, n, 100 + length (fst st)) # fst st,
      (snd st)(100 + length (fst st) := \<lparr>vn_mode = m, vn_len = 0, vn_refcount = refs\<rparr>))"

definition ramfs_create :: "ramfs dstate \<Rightarrow> vid \<Rightarrow> string \<Rightarrow> int \<times> vid option \<times> ramfs dstate" where
  "ramfs_create st d n = (0, Some (100 + length (fst st)), ramfs_add st d n S_IFREG 1)"

definition ramfs_mkdir :: "ramfs dstate \<Rightarrow> vid \<Rightarrow> string \<Rightarrow> int \<times> ramfs dstate" where
  "ramfs_mkdir st d n = (0, ramfs_add st d n S_IFDIR 0)"

definition ramfs_mknod :: "ramfs dstate \<Rightarrow> vid \<Rightarrow> string \<Rightarrow> vmode \<Rightarrow> nat \<Rightarrow> int \<times> ramfs dstate" where
  "ramfs_mknod st d n m devid = (0, ramfs_add st d n m 0)"

definition ramfs_remove :: "ramfs dstate \<Rightarrow> vid \<Rightarrow> string \<Rightarrow> int \<times> ramfs dstate" where
  "ramfs_remove st d n =
     (case ramfs_find (fst st) d n of
        None \<Rightarrow> (- ENOENT, st)
      | Some v \<Rightarrow> (0, (filter (\<lambda>e. \<not> (fst e = d \<and> fst (snd e) = n)) (fst st), snd st)))"

definition ramfs_link :: "ramfs dstate \<Rightarrow> vid \<Rightarrow> vid \<Rightarrow> string \<Rightarrow> int \<times> ramfs dstate" where
  "ramfs_link st v d n = (0, ((d, n, v) # fst st, snd st))"

definition ramfs_readdir :: "ramfs dstate \<Rightarrow> vid \<Rightarrow> int \<Rightarrow> int \<times> ramfs dstate" where
  "ramfs_readdir st d off = (- ENOENT, st)"

definition ramfs_ops :: "ramfs vnode_ops" where
  "ramfs_ops =
     \<lparr>vop_lookup = Some ramfs_lookup, vop_create = Some ramfs_create,
      vop_mkdir = Some ramfs_mkdir, vop_mknod = Some ramfs_mknod,
      vop_rmdir = Some ramfs_remove, vop_unlink = Some ramfs_remove,
      vop_link = Some ramfs_link, vop_read = None, vop_write = None,
      vop_readdir = Some ramfs_readdir\<rparr>"

definition env0 :: "ramfs env" where
  "env0 = \<lparr>NAME_LEN = 28, MAXPATHLEN = 1024, NFILES = 32, sizeof_dirent = 40,
            vn_ops = (\<lambda>v. ramfs_ops)\<rparr>"

text \<open>The same, with a directory operations table that has no \<open>lookup\<close> entry.\<close>

definition env_nolookup :: "ramfs env" where
  "env_nolookup = env0\<lparr>vn_ops := (\<lambda>v. ramfs_ops\<lparr>vop_lookup := None\<rparr>)\<rparr>"

text \<open>
  The root directory is vnode 0 and holds the regular file \<open>f\<close> (vnode 1) and the
  directory \<open>a\<close> (vnode 2), which holds the directory \<open>b\<close> (vnode 3). Descriptor 0 is
  free, descriptor 1 is open on \<open>f\<close> (open file 0), descriptor 2 is open on the root
  directory (open file 1); the other descriptors are free.
\<close>

definition s0 :: "ramfs kstate" where
  "s0 = \<lparr>vnodes = (\<lambda>v. \<lparr>vn_mode = (if v = 1 then S_IFREG else S_IFDIR), vn_len = 0,
                         vn_refcount = 1\<rparr>),
          fs = [(0, ''f'', 1), (0, ''a'', 2), (2, ''b'', 3)],
          files = (\<lambda>f. \<lparr>f_vnode = (if f = 0 then 1 else 0), f_mode = 3, f_pos = 0,
                        f_refcount = 1\<rparr>),
          p_files = [None, Some 0, Some 1] @ replicate 29 None,
          p_cwd = 0, vfs_root_vn = 0, vfsm = False, trace = []\<rparr>"

lemmas ramfs_defs = ramfs_ops_def ramfs_lookup_def ramfs_create_def ramfs_mkdir_def
  ramfs_mknod_def ramfs_remove_def ramfs_link_def ramfs_readdir_def ramfs_add_def env0_def
  env_nolookup_def s0_def

lemmas extern_defs = log_event_def vn_adjust_def f_adjust_def vref_def vput_def fget_def
  fput_def get_empty_fd_def kmutex_lock_def kmutex_unlock_def p_files_at_def p_files_set_def
  set_f_pos_def drv_state_def set_drv_def

section \<open>Reference counts\<close>

text \<open>
  Claim C1. On every return, error returns included, a system call has released every
  reference it acquired and did not hand to its caller; in particular \<open>do_unlink\<close> and
  \<open>do_mknod\<close> release the parent directory obtained from \<open>dir_namev\<close> on the exit for
  a basename longer than \<^verbatim>\<open>NAME_LEN\<close>. The code does not: for a basename of 29
  characters under the root directory both calls return \<^verbatim>\<open>-ENAMETOOLONG\<close> having
  acquired the root once (the \<open>Vref\<close> of \<open>dir_namev\<close>) and released nothing, and the
  root's reference count has grown by one.
\<close>

theorem unlink_mknod_leak_parent_on_long_basename:
  "(\<exists>s'. do_unlink env0 (Some ''/aaaaaaaaaaaaaaaaaaaaaaaaaaaaa'') s0 = Inr (- ENAMETOOLONG, s')
      \<and> trace s' = [Vref 0]
      \<and> vn_refcount (vnodes s' 0) = vn_refcount (vnodes s0 0) + 1)
   \<and> (\<exists>s'. do_mknod env0 (Some ''/aaaaaaaaaaaaaaaaaaaaaaaaaaaaa'') S_IFCHR 0 s0 = Inr (- ENAMETOOLONG, s')
      \<and> trace s' = [Vref 0]
      \<and> vn_refcount (vnodes s' 0) = vn_refcount (vnodes s0 0) + 1)"
  by (simp add: do_unlink_def do_mknod_def dir_namev_def dir_namev_loop.simps S_ISDIR_def
      extern_defs ramfs_defs)

text \<open>
  Claim C2. For a valid descriptor (in range, slot occupied) \<open>do_close\<close> returns 0,
  empties the slot and leaves the other slots alone, and over the whole call the open
  file's reference count goes down by exactly one: the call acquires once (\<open>fget\<close>) and
  releases twice (\<open>fput\<close>).
\<close>

theorem do_close_releases_once:
  assumes "0 \<le> fd" and "fd < int (NFILES env)" and "length (p_files s) = NFILES env"
    and "p_files s ! nat fd = Some f"
  shows "\<exists>s'. do_close env fd s = Inr (0, s')
           \<and> p_files s' = (p_files s)[nat fd := None]
           \<and> p_files s' ! nat fd = None
           \<and> f_refcount (files s' f) = f_refcount (files s f) - 1
           \<and> trace s' = trace s @ [Fget f, Fput f, Fput f]"
  using assms
  by (simp add: do_close_def extern_defs Let_def)

theorem do_close_releases_once_witness:
  "(0::int) \<le> 1 \<and> (1::int) < int (NFILES env0) \<and> length (p_files s0) = NFILES env0
     \<and> p_files s0 ! nat 1 = Some 0
     \<and> (\<exists>s'. do_close env0 1 s0 = Inr (0, s')
           \<and> p_files s' = (p_files s0)[nat 1 := None]
           \<and> p_files s' ! nat 1 = None
           \<and> f_refcount (files s' 0) = f_refcount (files s0 0) - 1
           \<and> trace s' = trace s0 @ [Fget 0, Fput 0, Fput 0])"
proof -
  have h: "(0::int) \<le> 1" "(1::int) < int (NFILES env0)" "length (p_files s0) = NFILES env0"
    "p_files s0 ! nat 1 = Some 0"
    by (simp_all add: env0_def s0_def)
  from do_close_releases_once [OF h] h show ?thesis by blast
qed

section \<open>Descriptors\<close>

text \<open>
  Claim C3. A descriptor outside \<open>0 \<le> fd < NFILES\<close> makes every descriptor-based call
  return \<^verbatim>\<open>-EBADF\<close> before any slot of the table is touched. The code does not:
  \<open>do_read\<close>, \<open>do_write\<close>, \<open>do_dup\<close> and \<open>do_dup2\<close> read the slot before they test
  the range, and every range test but that of \<open>do_read\<close> accepts \<open>fd = NFILES\<close>. With a
  table of 32 slots, descriptor 32 makes six of the seven calls read slot 32, and
  descriptor -1 makes four of them read slot -1; \<open>do_dup2\<close> also reads slot 32 for its
  new descriptor.
\<close>

theorem out_of_range_fd_reaches_the_table:
  "do_read env0 32 8 s0 = Inl (Out_of_bounds 32) \<and>
   do_write env0 32 8 s0 = Inl (Out_of_bounds 32) \<and>
   do_dup env0 32 s0 = Inl (Out_of_bounds 32) \<and>
   do_dup2 env0 32 1 s0 = Inl (Out_of_bounds 32) \<and>
   do_lseek env0 32 0 SEEK_SET s0 = Inl (Out_of_bounds 32) \<and>
   do_getdent env0 32 s0 = Inl (Out_of_bounds 32) \<and>
   do_read env0 (- 1) 8 s0 = Inl (Out_of_bounds (- 1)) \<and>
   do_write env0 (- 1) 8 s0 = Inl (Out_of_bounds (- 1)) \<and>
   do_dup env0 (- 1) s0 = Inl (Out_of_bounds (- 1)) \<and>
   do_dup2 env0 (- 1) 1 s0 = Inl (Out_of_bounds (- 1)) \<and>
   do_dup2 env0 1 32 s0 = Inl (Out_of_bounds 32)"
  by (simp add: do_read_def do_write_def do_dup_def do_dup2_def do_lseek_def do_getdent_def
      p_files_at_def env0_def s0_def)

lemma first_empty_full: "first_empty (replicate n (Some f)) i = None"
  by (induction n arbitrary: i) simp_all

text \<open>
  Claim C4. With a free slot in the table, \<open>do_dup\<close> installs the open file at the
  descriptor \<open>get_empty_fd\<close> allocates, descriptor 0 included, and returns it;
  \<^verbatim>\<open>-EMFILE\<close> is for a full table only. The code does not: in \<open>s0\<close> descriptor 0 is
  free and is what \<open>get_empty_fd\<close> returns, and \<open>do_dup 1\<close> returns \<^verbatim>\<open>-EMFILE\<close> with
  the table and the reference count as they were. With a full table, where
  \<open>get_empty_fd\<close> returns \<^verbatim>\<open>-EMFILE\<close>, the code takes the negative value for a
  descriptor and writes outside the table.
\<close>

theorem do_dup_rejects_descriptor_zero:
  "p_files s0 ! 0 = None \<and> p_files s0 ! 1 = Some 0 \<and> get_empty_fd s0 = 0
   \<and> (\<exists>s'. do_dup env0 1 s0 = Inr (- EMFILE, s') \<and> p_files s' = p_files s0
         \<and> f_refcount (files s' 0) = f_refcount (files s0 0))
   \<and> get_empty_fd (s0\<lparr>p_files := replicate 32 (Some 0)\<rparr>) = - EMFILE
   \<and> do_dup env0 1 (s0\<lparr>p_files := replicate 32 (Some 0)\<rparr>) = Inl (Out_of_bounds (- EMFILE))"
  by (simp add: do_dup_def extern_defs ramfs_defs first_empty_full errno_defs)

section \<open>Order of release and driver call\<close>

text \<open>
  Claim C5. \<open>do_mknod\<close> releases the parent directory only after the driver's
  \<open>mknod\<close> has returned. The code does not: creating \<open>/dev\<close> under the root releases
  the root (\<open>Vput 0\<close>) and then calls the driver's \<open>mknod\<close> on it.
\<close>

theorem do_mknod_releases_parent_before_driver_call:
  "\<exists>s'. do_mknod env0 (Some ''/dev'') S_IFCHR 0 s0 = Inr (0, s')
      \<and> trace s' = [Vref 0, Call Op_lookup 0, Vput 0, Call Op_mknod 0]"
  by (simp add: do_mknod_def dir_namev_def dir_namev_loop.simps lookup_def S_ISDIR_def
      extern_defs ramfs_defs errno_defs)

section \<open>The namespace lock\<close>

subsection \<open>What the code adds to the trace\<close>

lemma held_after_append: "held_after h (xs @ ys) = held_after (held_after h xs) ys"
  by (induction h xs rule: held_after.induct) simp_all

lemma mutations_at_append:
  "mutations_at w h (xs @ ys) = (mutations_at w h xs \<and> mutations_at w (held_after h xs) ys)"
  by (induction w h xs rule: mutations_at.induct) auto

lemma quiet_held_after: "list_all quiet xs \<Longrightarrow> held_after h xs = h"
  by (induction h xs rule: held_after.induct) simp_all

lemma quiet_mutations_at: "list_all quiet xs \<Longrightarrow> mutations_at w h xs"
  by (induction w h xs rule: mutations_at.induct) simp_all

lemma quiet_step_refl: "quiet_step s s"
  by (simp add: quiet_step_def)

lemma quiet_step_trans: "quiet_step s s1 \<Longrightarrow> quiet_step s1 s2 \<Longrightarrow> quiet_step s s2"
  by (auto simp add: quiet_step_def)

lemma quiet_step_vfsm: "quiet_step s s' \<Longrightarrow> vfsm s' = vfsm s"
  by (simp add: quiet_step_def)

lemma quiet_step_vref: "quiet_step s (vref v s)"
  by (simp add: quiet_step_def vref_def log_event_def vn_adjust_def)

lemma quiet_step_vput: "quiet_step s (vput v s)"
  by (simp add: quiet_step_def vput_def log_event_def vn_adjust_def)

lemma quiet_step_call:
  "\<not> is_mutation vop \<Longrightarrow> quiet_step s (set_drv d (log_event (Call vop v) s))"
  by (simp add: quiet_step_def set_drv_def log_event_def)

lemma lock_run_refl: "lock_run w s s"
  by (simp add: lock_run_def)

lemma lock_run_trans: "lock_run w s s1 \<Longrightarrow> lock_run w s1 s2 \<Longrightarrow> lock_run w s s2"
  by (auto simp add: lock_run_def held_after_append mutations_at_append)

lemma quiet_lock_run: "quiet_step s s' \<Longrightarrow> lock_run w s s'"
  by (auto simp add: quiet_step_def lock_run_def quiet_held_after quiet_mutations_at)

lemma lock_run_lock: "lock_run w s (kmutex_lock s)"
  by (simp add: lock_run_def kmutex_lock_def log_event_def)

lemma lock_run_unlock: "lock_run w s (kmutex_unlock s)"
  by (simp add: lock_run_def kmutex_unlock_def log_event_def)

lemma lock_run_call:
  "vfsm s = w \<or> \<not> is_mutation vop \<Longrightarrow> lock_run w s (set_drv d (log_event (Call vop v) s))"
  by (auto simp add: lock_run_def set_drv_def log_event_def)

lemma vfsm_steps [simp]:
  "vfsm (vput v s) = vfsm s" "vfsm (vref v s) = vfsm s"
  "vfsm (kmutex_lock s) = True" "vfsm (kmutex_unlock s) = False"
  "vfsm (set_drv d s) = vfsm s" "vfsm (log_event e s) = vfsm s"
  by (simp_all add: extern_defs)

lemma lookup_quiet: "lookup env d name len s = Inr (ret, r, s') \<Longrightarrow> quiet_step s s'"
  by (auto simp add: lookup_def quiet_step_refl quiet_step_vref quiet_step_call
      split: if_splits option.splits prod.splits)

lemma dir_namev_loop_quiet:
  "dir_namev_loop env dir cs s = Inr (ret, r, nm, s') \<Longrightarrow> quiet_step s s'"
proof (induction "length cs" arbitrary: cs dir s rule: less_induct)
  case less
  note run = less.prems [unfolded dir_namev_loop.simps [of env dir cs s]]
  show ?case
  proof (cases "cs = []")
    case True
    with run show ?thesis by (simp add: quiet_step_refl)
  next
    case ne: False
    show ?thesis
    proof (cases dir)
      case None
      with run ne show ?thesis by (simp add: quiet_step_refl)
    next
      case (Some d)
      show ?thesis
      proof (cases "S_ISDIR (vn_mode (vnodes s d))")
        case False
        with run ne Some show ?thesis by (auto simp add: quiet_step_vput)
      next
        case isdir: True
        show ?thesis
        proof (cases "strchr cs CHR ''/''")
          case None
          with run ne Some isdir show ?thesis by (simp add: quiet_step_refl)
        next
          case k: (Some k)
          show ?thesis
          proof (cases "NAME_LEN env < k")
            case True
            with run ne Some isdir k show ?thesis by (auto simp add: quiet_step_vput)
          next
            case short: False
            from run ne Some isdir k short
            obtain ret1 result s1 where lk: "lookup env d cs k s = Inr (ret1, result, s1)"
              by (auto split: sum.splits)
            note q1 = lookup_quiet [OF lk]
            show ?thesis
            proof (cases "ret1 < 0")
              case True
              with run ne Some isdir k short lk have "s' = vput d s1" by simp
              with q1 show ?thesis
                by (auto intro: quiet_step_trans quiet_step_vput)
            next
              case False
              with run ne Some isdir k short lk
              have rec: "dir_namev_loop env result (drop (Suc k) cs) (vput d s1) = Inr (ret, r, nm, s')"
                by simp
              have "length (drop (Suc k) cs) < length cs"
                using ne by simp
              from less.hyps [OF this rec] q1 show ?thesis
                by (blast intro: quiet_step_trans quiet_step_vput)
            qed
          qed
        qed
      qed
    qed
  qed
qed

lemma dir_namev_quiet:
  "dir_namev env pathname base s = Inr (ret, r, nm, len, s') \<Longrightarrow> quiet_step s s'"
  by (auto simp add: dir_namev_def quiet_step_refl Let_def
      split: if_splits sum.splits prod.splits
      dest!: dir_namev_loop_quiet intro: quiet_step_trans [OF quiet_step_vref])

lemma open_namev_run:
  assumes run: "open_namev env pathname flag base s = Inr (ret, res, s')"
    and free: "\<not> vfsm s" and w: "w \<or> (flag AND O_CREAT) = 0"
  shows "lock_run w s s' \<and> \<not> vfsm s'"
proof -
  from run obtain r1 result name namelen s1 where
    dn: "dir_namev env pathname base s = Inr (r1, result, name, namelen, s1)"
    by (auto simp add: open_namev_def split: sum.splits)
  note q1 = dir_namev_quiet [OF dn]
  note run1 = run [unfolded open_namev_def dn, simplified]
  show ?thesis
  proof (cases "r1 < 0")
    case True
    with run1 q1 free show ?thesis
      by (auto simp add: quiet_lock_run quiet_step_vfsm)
  next
    case ok: False
    with run1 obtain r where r: "result = Some r"
      by (cases result) auto
    show ?thesis
    proof (cases "S_ISDIR (vn_mode (vnodes s1 r))")
      case False
      with run1 ok r have "s' = vput r s1" by simp
      with q1 free show ?thesis
        by (auto simp add: quiet_step_vfsm intro: quiet_lock_run quiet_step_trans quiet_step_vput)
    next
      case isdir: True
      with run1 ok r obtain ret2 rv s2 where
        lk: "lookup env r name namelen (kmutex_lock s1) = Inr (ret2, rv, s2)"
        by (auto split: sum.splits)
      note q2 = lookup_quiet [OF lk]
      have held: "vfsm s2"
        using quiet_step_vfsm [OF q2] by simp
      have to_s2: "lock_run w s s2"
        by (blast intro: lock_run_trans quiet_lock_run q1 q2 lock_run_lock)
      from run1 ok r isdir lk
      have run2: "(if ret2 < 0 then
                     (if (flag AND O_CREAT) \<noteq> 0 then
                        (case vop_create (vn_ops env r) of
                           None \<Rightarrow> Inl (Null_call Op_create)
                         | Some f \<Rightarrow>
                             (case f (drv_state s2) r (take namelen name) of
                                (i, created, d) \<Rightarrow>
                                  let s3 = set_drv d (log_event (Call Op_create r) s2)
                                  in if i < 0 then Inr (i, None, kmutex_unlock (vput r s3))
                                     else Inr (0, created, kmutex_unlock (vput r s3))))
                      else Inr (ret2, None, kmutex_unlock (vput r s2)))
                   else Inr (0, rv, kmutex_unlock (vput r s2))) = Inr (ret, res, s')"
        by simp
      have closing: "lock_run w s (kmutex_unlock (vput r t))" if "lock_run w s t" for t
        using that by (blast intro: lock_run_trans quiet_lock_run quiet_step_vput lock_run_unlock)
      show ?thesis
      proof (cases "ret2 < 0 \<and> (flag AND O_CREAT) \<noteq> 0")
        case False
        with run2 have "s' = kmutex_unlock (vput r s2)"
          by (auto split: if_splits)
        with closing [OF to_s2] show ?thesis by simp
      next
        case True
        with w have w: w by simp
        from run2 True obtain f i created d where
          "vop_create (vn_ops env r) = Some f" and
          "f (drv_state s2) r (take namelen name) = (i, created, d)" and
          s': "s' = kmutex_unlock (vput r (set_drv d (log_event (Call Op_create r) s2)))"
          by (auto simp add: Let_def split: option.splits prod.splits if_splits)
        have "lock_run w s (set_drv d (log_event (Call Op_create r) s2))"
          using to_s2 held w by (blast intro: lock_run_trans lock_run_call)
        from closing [OF this] s' show ?thesis by simp
      qed
    qed
  qed
qed

lemma run_vput: "lock_run w s t \<Longrightarrow> lock_run w s (vput v t)"
  by (blast intro: lock_run_trans quiet_lock_run quiet_step_vput)

lemma run_call:
  "lock_run w s t \<Longrightarrow> vfsm t = w \<or> \<not> is_mutation vop \<Longrightarrow>
     lock_run w s (set_drv d (log_event (Call vop v) t))"
  by (blast intro: lock_run_trans lock_run_call)

lemma run_quiet: "quiet_step s t \<Longrightarrow> lock_run w s t"
  by (rule quiet_lock_run)

lemma run_quiet2: "quiet_step s s1 \<Longrightarrow> quiet_step s1 t \<Longrightarrow> lock_run w s t"
  by (blast intro: quiet_lock_run quiet_step_trans)

lemma do_mkdir_run:
  assumes "do_mkdir env path s = Inr (ret, s')" and "\<not> vfsm s"
  shows "lock_run False s s' \<and> \<not> vfsm s'"
  using assms
  by (auto simp add: do_mkdir_def lock_run_refl quiet_step_vfsm
      split: option.splits if_splits sum.splits prod.splits
      dest!: dir_namev_quiet lookup_quiet
      intro!: run_vput run_call intro: run_quiet run_quiet2)

lemma do_mknod_run:
  assumes "do_mknod env path mode devid s = Inr (ret, s')" and "\<not> vfsm s"
  shows "lock_run False s s' \<and> \<not> vfsm s'"
  using assms
  by (auto simp add: do_mknod_def lock_run_refl quiet_step_vfsm
      split: option.splits if_splits sum.splits prod.splits
      dest!: dir_namev_quiet lookup_quiet
      intro!: run_vput run_call intro: run_quiet run_quiet2)

lemma do_rmdir_run:
  assumes "do_rmdir env path s = Inr (ret, s')" and "\<not> vfsm s"
  shows "lock_run False s s' \<and> \<not> vfsm s'"
  using assms
  by (auto simp add: do_rmdir_def lock_run_refl quiet_step_vfsm
      split: option.splits if_splits sum.splits prod.splits
      dest!: dir_namev_quiet lookup_quiet
      intro!: run_vput run_call intro: run_quiet run_quiet2)

lemma do_unlink_run:
  assumes "do_unlink env path s = Inr (ret, s')" and "\<not> vfsm s"
  shows "lock_run False s s' \<and> \<not> vfsm s'"
  using assms
  by (auto simp add: do_unlink_def lock_run_refl quiet_step_vfsm
      split: option.splits if_splits sum.splits prod.splits
      dest!: dir_namev_quiet lookup_quiet
      intro!: run_vput run_call intro: run_quiet run_quiet2)

lemma run_then_quiet: "lock_run w s t \<Longrightarrow> quiet_step t t' \<Longrightarrow> lock_run w s t'"
  by (blast intro: lock_run_trans quiet_lock_run)

lemma run_then_quiet2:
  "lock_run w s t \<Longrightarrow> quiet_step t t1 \<Longrightarrow> quiet_step t1 t' \<Longrightarrow> lock_run w s t'"
  by (blast intro: lock_run_trans quiet_lock_run)

lemma do_link_run:
  assumes run: "do_link env frompath topath s = Inr (ret, s')" and free: "\<not> vfsm s"
  shows "lock_run False s s' \<and> \<not> vfsm s'"
proof (cases "\<exists>fr t. frompath = Some fr \<and> topath = Some t")
  case False
  with run have "s' = s"
    by (cases frompath; cases topath) (simp_all add: do_link_def)
  with free show ?thesis by (simp add: lock_run_refl)
next
  case True
  then obtain fr t where p: "frompath = Some fr" "topath = Some t" by blast
  show ?thesis
  proof (cases "MAXPATHLEN env < length fr \<or> MAXPATHLEN env < length t")
    case True
    with run p have "s' = s" by (simp add: do_link_def)
    with free show ?thesis by (simp add: lock_run_refl)
  next
    case False
    with run p obtain ret1 fromNode s1 where
      op: "open_namev env fr 0 None s = Inr (ret1, fromNode, s1)"
      by (auto simp add: do_link_def split: sum.splits)
    from open_namev_run [OF op free, of False]
    have r1: "lock_run False s s1" and f1: "\<not> vfsm s1" by simp_all
    from run p False op r1 f1 show ?thesis
      by (auto simp add: do_link_def quiet_step_vfsm
          split: option.splits if_splits sum.splits prod.splits
          dest!: dir_namev_quiet lookup_quiet
          intro!: run_vput run_call intro: run_then_quiet run_then_quiet2)
  qed
qed

subsection \<open>Who holds the lock\<close>

text \<open>
  Claim C6, as stated: every namespace-mutating call (\<open>do_mknod\<close>, \<open>do_mkdir\<close>,
  \<open>do_rmdir\<close>, \<open>do_unlink\<close>, \<open>do_link\<close>, the create window of \<open>open_namev\<close>) holds
  \<^verbatim>\<open>vfsm\<close> when it invokes the driver's mutation. It fails for \<open>do_mkdir\<close>: making
  \<open>/d\<close> calls the driver's \<open>mkdir\<close> in a run without a single \<open>Lock\<close>.
\<close>

theorem do_mkdir_calls_driver_without_vfsm:
  "\<exists>s'. do_mkdir env0 (Some ''/d'') s0 = Inr (0, s')
      \<and> trace s' = [Vref 0, Call Op_lookup 0, Call Op_mkdir 0, Vput 0]
      \<and> \<not> mutations_locked (vfsm s0) (trace s')"
  by (simp add: do_mkdir_def dir_namev_def dir_namev_loop.simps lookup_def S_ISDIR_def
      mutations_locked_def extern_defs ramfs_defs errno_defs)

text \<open>
  Claim C6, amended. Started with \<^verbatim>\<open>vfsm\<close> free, \<open>open_namev\<close> calls the driver's
  \<open>create\<close> only with \<^verbatim>\<open>vfsm\<close> held and has released the lock at every return,
  whatever the return value; \<open>do_mknod\<close>, \<open>do_mkdir\<close>, \<open>do_rmdir\<close>, \<open>do_unlink\<close> and
  \<open>do_link\<close> call their driver mutation with \<^verbatim>\<open>vfsm\<close> not held (\<open>do_link\<close> holds it
  inside its \<open>open_namev\<close> only).
\<close>

theorem namespace_lock_only_in_open_namev:
  assumes "\<not> vfsm s"
  shows "(open_namev env pathname flag base s = Inr (r, res, s') \<longrightarrow>
            \<not> vfsm s' \<and> (\<exists>evs. trace s' = trace s @ evs \<and> mutations_locked False evs
                                 \<and> \<not> held_after False evs))
       \<and> (do_mknod env path mode devid s = Inr (r1, s1) \<longrightarrow>
            (\<exists>evs. trace s1 = trace s @ evs \<and> mutations_unlocked False evs))
       \<and> (do_mkdir env path s = Inr (r2, s2) \<longrightarrow>
            (\<exists>evs. trace s2 = trace s @ evs \<and> mutations_unlocked False evs))
       \<and> (do_rmdir env pathname s = Inr (r3, s3) \<longrightarrow>
            (\<exists>evs. trace s3 = trace s @ evs \<and> mutations_unlocked False evs))
       \<and> (do_unlink env path s = Inr (r4, s4) \<longrightarrow>
            (\<exists>evs. trace s4 = trace s @ evs \<and> mutations_unlocked False evs))
       \<and> (do_link env frompath topath s = Inr (r5, s5) \<longrightarrow>
            (\<exists>evs. trace s5 = trace s @ evs \<and> mutations_unlocked False evs))"
proof -
  have unlocked: "\<exists>evs. trace t = trace s @ evs \<and> mutations_unlocked False evs"
    if "lock_run False s t \<and> \<not> vfsm t" for t
    using that assms by (auto simp add: lock_run_def mutations_unlocked_def)
  show ?thesis
    using open_namev_run [of env pathname flag base s r res s' True] assms
      do_mknod_run [of env path mode devid s r1 s1, THEN unlocked]
      do_mkdir_run [of env path s r2 s2, THEN unlocked]
      do_rmdir_run [of env pathname s r3 s3, THEN unlocked]
      do_unlink_run [of env path s r4 s4, THEN unlocked]
      do_link_run [of env frompath topath s r5 s5, THEN unlocked]
    by (auto simp add: lock_run_def mutations_locked_def)
qed

theorem namespace_lock_only_in_open_namev_witness:
  "\<not> vfsm s0
   \<and> (\<exists>r res s'. open_namev env0 ''/new'' O_CREAT None s0 = Inr (r, res, s')
         \<and> trace s' = trace s0 @ [Vref 0, Lock, Call Op_lookup 0, Call Op_create 0, Vput 0, Unlock]
         \<and> \<not> vfsm s'
         \<and> (\<exists>evs. trace s' = trace s0 @ evs \<and> mutations_locked False evs \<and> \<not> held_after False evs))
   \<and> (\<exists>r s'. do_mknod env0 (Some ''/dev'') S_IFCHR 0 s0 = Inr (r, s')
         \<and> (\<exists>evs. trace s' = trace s0 @ evs \<and> mutations_unlocked False evs))
   \<and> (\<exists>r s'. do_mkdir env0 (Some ''/d'') s0 = Inr (r, s')
         \<and> (\<exists>evs. trace s' = trace s0 @ evs \<and> mutations_unlocked False evs))
   \<and> (\<exists>r s'. do_rmdir env0 ''/a/b'' s0 = Inr (r, s')
         \<and> (\<exists>evs. trace s' = trace s0 @ evs \<and> mutations_unlocked False evs))
   \<and> (\<exists>r s'. do_unlink env0 (Some ''/f'') s0 = Inr (r, s')
         \<and> (\<exists>evs. trace s' = trace s0 @ evs \<and> mutations_unlocked False evs))
   \<and> (\<exists>r s'. do_link env0 (Some ''/f'') (Some ''/g'') s0 = Inr (r, s')
         \<and> trace s' = trace s0 @ [Vref 0, Lock, Call Op_lookup 0, Vput 0, Unlock, Vref 0,
                                   Call Op_lookup 0, Call Op_link 0, Vput 1, Vput 0]
         \<and> (\<exists>evs. trace s' = trace s0 @ evs \<and> mutations_unlocked False evs))"
proof -
  have free: "\<not> vfsm s0" by (simp add: s0_def)
  note T = namespace_lock_only_in_open_namev [OF free, where env = env0]
  have "\<exists>r res s'. open_namev env0 ''/new'' O_CREAT None s0 = Inr (r, res, s')
          \<and> trace s' = trace s0 @ [Vref 0, Lock, Call Op_lookup 0, Call Op_create 0, Vput 0, Unlock]"
    by (simp add: open_namev_def dir_namev_def dir_namev_loop.simps lookup_def S_ISDIR_def
        extern_defs ramfs_defs errno_defs flag_defs)
  then obtain r res s' where a: "open_namev env0 ''/new'' O_CREAT None s0 = Inr (r, res, s')"
    "trace s' = trace s0 @ [Vref 0, Lock, Call Op_lookup 0, Call Op_create 0, Vput 0, Unlock]"
    by blast
  note a' = T [THEN conjunct1, THEN mp, OF a(1)]
  have "\<exists>r s'. do_mknod env0 (Some ''/dev'') S_IFCHR 0 s0 = Inr (r, s')"
    by (simp add: do_mknod_def dir_namev_def dir_namev_loop.simps lookup_def S_ISDIR_def
        extern_defs ramfs_defs errno_defs)
  then obtain r1 s1 where b: "do_mknod env0 (Some ''/dev'') S_IFCHR 0 s0 = Inr (r1, s1)"
    by blast
  note b' = T [THEN conjunct2, THEN conjunct1, THEN mp, OF b]
  have "\<exists>r s'. do_mkdir env0 (Some ''/d'') s0 = Inr (r, s')"
    by (simp add: do_mkdir_def dir_namev_def dir_namev_loop.simps lookup_def S_ISDIR_def
        extern_defs ramfs_defs errno_defs)
  then obtain r2 s2 where c: "do_mkdir env0 (Some ''/d'') s0 = Inr (r2, s2)"
    by blast
  note c' = T [THEN conjunct2, THEN conjunct2, THEN conjunct1, THEN mp, OF c]
  have "\<exists>r s'. do_rmdir env0 ''/a/b'' s0 = Inr (r, s')"
    by (simp add: do_rmdir_def dir_namev_def dir_namev_loop.simps lookup_def S_ISDIR_def
        extern_defs ramfs_defs errno_defs)
  then obtain r3 s3 where d: "do_rmdir env0 ''/a/b'' s0 = Inr (r3, s3)"
    by blast
  note d' = T [THEN conjunct2, THEN conjunct2, THEN conjunct2, THEN conjunct1, THEN mp, OF d]
  have "\<exists>r s'. do_unlink env0 (Some ''/f'') s0 = Inr (r, s')"
    by (simp add: do_unlink_def dir_namev_def dir_namev_loop.simps lookup_def S_ISDIR_def
        extern_defs ramfs_defs errno_defs)
  then obtain r4 s4 where e: "do_unlink env0 (Some ''/f'') s0 = Inr (r4, s4)"
    by blast
  note e' = T [THEN conjunct2, THEN conjunct2, THEN conjunct2, THEN conjunct2, THEN conjunct1,
      THEN mp, OF e]
  have "\<exists>r s'. do_link env0 (Some ''/f'') (Some ''/g'') s0 = Inr (r, s')
          \<and> trace s' = trace s0 @ [Vref 0, Lock, Call Op_lookup 0, Vput 0, Unlock, Vref 0,
                                    Call Op_lookup 0, Call Op_link 0, Vput 1, Vput 0]"
    by (simp add: do_link_def open_namev_def dir_namev_def dir_namev_loop.simps lookup_def
        S_ISDIR_def extern_defs ramfs_defs errno_defs flag_defs)
  then obtain r5 s5 where f: "do_link env0 (Some ''/f'') (Some ''/g'') s0 = Inr (r5, s5)"
    "trace s5 = trace s0 @ [Vref 0, Lock, Call Op_lookup 0, Vput 0, Unlock, Vref 0,
                            Call Op_lookup 0, Call Op_link 0, Vput 1, Vput 0]"
    by blast
  note f' = T [THEN conjunct2, THEN conjunct2, THEN conjunct2, THEN conjunct2, THEN conjunct2,
      THEN mp, OF f(1)]
  from free a a' b b' c c' d d' e e' f f' show ?thesis by blast
qed

section \<open>The file position\<close>

text \<open>
  Claim C7. No call leaves \<open>f_pos\<close> negative; in particular \<open>do_getdent\<close> leaves it
  unchanged when the driver's \<open>readdir\<close> returns a negative error code. The code does
  not: it adds the return value of \<open>readdir\<close> to \<open>f_pos\<close> before it tests the sign.
  Descriptor 2 is open on the root directory at position 0; the driver's \<open>readdir\<close>
  fails, and the position is left at the negative error code.
\<close>

theorem do_getdent_adds_error_code_to_f_pos:
  "f_pos (files s0 1) = 0 \<and>
   (\<exists>s'. do_getdent env0 2 s0 = Inr (- ENOENT, s') \<and> f_pos (files s' 1) = - ENOENT
      \<and> f_pos (files s' 1) < 0)"
  by (simp add: do_getdent_def S_ISDIR_def extern_defs ramfs_defs errno_defs)

section \<open>The contract of dir\_namev\<close>

subsection \<open>Segments and components\<close>

lemma split_path_not_Nil: "split_path cs \<noteq> []"
  by (induction cs) (auto split: list.splits)

lemma strchr_None_split: "strchr cs CHR ''/'' = None \<Longrightarrow> split_path cs = [cs]"
  by (induction cs) (auto split: if_splits)

lemma strchr_Some_split:
  "strchr cs CHR ''/'' = Some k \<Longrightarrow>
     k < length cs \<and> cs ! k = CHR ''/'' \<and> CHR ''/'' \<notin> set (take k cs)
     \<and> split_path cs = take k cs # split_path (drop (Suc k) cs)"
proof (induction cs arbitrary: k)
  case Nil
  then show ?case by simp
next
  case (Cons c cs)
  show ?case
  proof (cases "c = CHR ''/''")
    case True
    with Cons.prems show ?thesis by simp
  next
    case False
    with Cons.prems obtain j where j: "strchr cs CHR ''/'' = Some j" "k = Suc j"
      by auto
    from Cons.IH [OF j(1)] False j(2) show ?thesis by simp
  qed
qed

lemma lookup_counted_name:
  "name \<noteq> ''.'' \<Longrightarrow> name' \<noteq> ''.'' \<Longrightarrow> take len name = take len name' \<Longrightarrow>
     lookup env d name len s = lookup env d name' len s"
  by (simp add: lookup_def split: option.split)

lemma segment_in_place:
  assumes "k < length cs" and "cs ! k = CHR ''/''"
  shows "lookup env d cs k s = lookup env d (take k cs @ ''/'') k s"
proof (rule lookup_counted_name)
  show "cs \<noteq> ''.''"
    using assms by (cases cs) auto
  show "take k cs @ ''/'' \<noteq> ''.''"
    by (cases "take k cs") auto
  show "take k cs = take k (take k cs @ ''/'')"
    using assms by simp
qed

text \<open>
  Unless the component is \<open>.\<close>, the slash after it makes no difference to \<open>lookup\<close>.
\<close>

lemma lookup_component_alone:
  "c \<noteq> ''.'' \<Longrightarrow> lookup env d (c @ ''/'') (length c) s = lookup env d c (length c) s"
  by (rule lookup_counted_name) (auto simp add: append_eq_Cons_conv)

lemma dir_namev_loop_resolves:
  "resolve_dirs env dir (butlast (split_path cs)) s = Some (parent, s') \<Longrightarrow>
   (last (split_path cs) \<noteq> [] \<longrightarrow> (\<exists>d. parent = Some d \<and> S_ISDIR (vn_mode (vnodes s' d)))) \<Longrightarrow>
   dir_namev_loop env dir cs s = Inr (0, parent, last (split_path cs), s')"
proof (induction "length cs" arbitrary: cs dir s rule: less_induct)
  case less
  show ?case
  proof (cases "cs = []")
    case True
    with less.prems show ?thesis
      by (simp add: dir_namev_loop.simps)
  next
    case False
    show ?thesis
    proof (cases "strchr cs CHR ''/''")
      case None
      from strchr_None_split [OF None] less.prems False show ?thesis
        by (auto simp add: dir_namev_loop.simps None)
    next
      case (Some k)
      from strchr_Some_split [OF Some]
      have k: "k < length cs" "cs ! k = CHR ''/''"
        and sp: "split_path cs = take k cs # split_path (drop (Suc k) cs)"
        by simp_all
      let ?rest = "drop (Suc k) cs"
      have bl: "butlast (split_path cs) = take k cs # butlast (split_path ?rest)"
        and la: "last (split_path cs) = last (split_path ?rest)"
        using sp split_path_not_Nil [of ?rest] by simp_all
      from less.prems(1) obtain d where d: "dir = Some d"
        by (cases dir) (simp_all add: bl)
      from less.prems(1) have isdir: "S_ISDIR (vn_mode (vnodes s d))" and len: "k \<le> NAME_LEN env"
        using k(1) by (simp_all add: bl d split: if_splits)
      from less.prems(1) isdir len k(1)
      obtain ret result s1 where
        lk: "lookup env d (take k cs @ ''/'') k s = Inr (ret, result, s1)" and
        ret: "\<not> ret < 0" and
        rest: "resolve_dirs env result (butlast (split_path ?rest)) (vput d s1) = Some (parent, s')"
        by (auto simp add: bl d split: sum.splits if_splits)
      have lk': "lookup env d cs k s = Inr (ret, result, s1)"
        using segment_in_place [OF k, of env d s] lk by simp
      have shorter: "length ?rest < length cs"
        using k(1) by simp
      have "dir_namev_loop env result ?rest (vput d s1) = Inr (0, parent, last (split_path ?rest), s')"
        using less.hyps [OF shorter rest] less.prems(2) la by simp
      then show ?thesis
        using False isdir len ret lk'
        by (subst dir_namev_loop.simps) (simp add: d Some la)
    qed
  qed
qed

subsection \<open>Parent directory and basename\<close>

text \<open>
  Claim C8. For a nonempty path of at most \<^verbatim>\<open>MAXPATHLEN\<close> characters whose
  intermediate components resolve, \<open>dir_namev\<close> returns 0 with the directory the
  intermediate components lead to, the last component as basename and its length. The
  state it leaves is the one after resolving the intermediate components: the last
  component is not looked up. Resolution starts at the root for an absolute path, else at
  \<open>base\<close> or the working directory. A path that ends in a slash has the empty last
  component, and the directory the path names is returned as parent. When the basename is
  not empty the loop tests once more that the parent is a directory, which is the last
  hypothesis.
\<close>

theorem dir_namev_parent_and_basename:
  assumes "pathname \<noteq> []" and "length pathname \<le> MAXPATHLEN env"
    and "start = (if hd pathname = CHR ''/'' then vfs_root_vn s
                  else case base of None \<Rightarrow> p_cwd s | Some b \<Rightarrow> b)"
    and "comps = split_path (if hd pathname = CHR ''/'' then tl pathname else pathname)"
    and "resolve_dirs env (Some start) (butlast comps) (vref start s) = Some (parent, s')"
    and "last comps \<noteq> [] \<longrightarrow> (\<exists>d. parent = Some d \<and> S_ISDIR (vn_mode (vnodes s' d)))"
  shows "dir_namev env pathname base s = Inr (0, parent, last comps, length (last comps), s')"
proof (cases "hd pathname = CHR ''/''")
  case True
  with assms dir_namev_loop_resolves [of env "Some start" "tl pathname" "vref start s" parent s']
  show ?thesis
    by (simp add: dir_namev_def)
next
  case False
  with assms dir_namev_loop_resolves [of env "Some start" pathname "vref start s" parent s']
  show ?thesis
    by (cases base) (simp_all add: dir_namev_def)
qed

theorem dir_namev_parent_and_basename_witness:
  "(''/a/b/c'' \<noteq> [] \<and> length ''/a/b/c'' \<le> MAXPATHLEN env0
      \<and> split_path ''a/b/c'' = [''a'', ''b'', ''c'']
      \<and> (\<exists>s'. resolve_dirs env0 (Some 0) [''a'', ''b''] (vref 0 s0) = Some (Some 3, s')
            \<and> S_ISDIR (vn_mode (vnodes s' 3))
            \<and> dir_namev env0 ''/a/b/c'' None s0 = Inr (0, Some 3, ''c'', 1, s')
            \<and> trace s' = [Vref 0, Call Op_lookup 0, Vput 0, Call Op_lookup 2, Vput 2]))
   \<and> (''/a/'' \<noteq> [] \<and> length ''/a/'' \<le> MAXPATHLEN env0
      \<and> split_path ''a/'' = [''a'', '''']
      \<and> (\<exists>s'. resolve_dirs env0 (Some 0) [''a''] (vref 0 s0) = Some (Some 2, s')
            \<and> dir_namev env0 ''/a/'' None s0 = Inr (0, Some 2, [], 0, s')
            \<and> trace s' = [Vref 0, Call Op_lookup 0, Vput 0]))"
proof -
  have len: "length ''/a/b/c'' \<le> MAXPATHLEN env0" "length ''/a/'' \<le> MAXPATHLEN env0"
    by (simp_all add: env0_def)
  have sp1: "split_path ''a/b/c'' = [''a'', ''b'', ''c'']" and sp2: "split_path ''a/'' = [''a'', '''']"
    by simp_all
  have "\<exists>s'. resolve_dirs env0 (Some 0) [''a'', ''b''] (vref 0 s0) = Some (Some 3, s')
          \<and> S_ISDIR (vn_mode (vnodes s' 3))
          \<and> trace s' = [Vref 0, Call Op_lookup 0, Vput 0, Call Op_lookup 2, Vput 2]"
    by (simp add: lookup_def S_ISDIR_def extern_defs ramfs_defs)
  then obtain t1 where t1: "resolve_dirs env0 (Some 0) [''a'', ''b''] (vref 0 s0) = Some (Some 3, t1)"
    "S_ISDIR (vn_mode (vnodes t1 3))"
    "trace t1 = [Vref 0, Call Op_lookup 0, Vput 0, Call Op_lookup 2, Vput 2]"
    by blast
  have "\<exists>s'. resolve_dirs env0 (Some 0) [''a''] (vref 0 s0) = Some (Some 2, s')
          \<and> trace s' = [Vref 0, Call Op_lookup 0, Vput 0]"
    by (simp add: lookup_def S_ISDIR_def extern_defs ramfs_defs)
  then obtain t2 where t2: "resolve_dirs env0 (Some 0) [''a''] (vref 0 s0) = Some (Some 2, t2)"
    "trace t2 = [Vref 0, Call Op_lookup 0, Vput 0]"
    by blast
  have root: "vfs_root_vn s0 = 0" by (simp add: s0_def)
  have r1: "dir_namev env0 ''/a/b/c'' None s0 = Inr (0, Some 3, ''c'', 1, t1)"
    using dir_namev_parent_and_basename [of "''/a/b/c''" env0 0 s0 None "[''a'', ''b'', ''c'']" "Some 3" t1]
      len sp1 t1 root by simp
  have r2: "dir_namev env0 ''/a/'' None s0 = Inr (0, Some 2, [], 0, t2)"
    using dir_namev_parent_and_basename [of "''/a/''" env0 0 s0 None "[''a'', '''']" "Some 2" t2]
      len sp2 t2 root by simp
  from len sp1 sp2 t1 t2 r1 r2 show ?thesis by auto
qed

section \<open>Single-component lookup\<close>

text \<open>
  Claim C9. For a directory whose operations table has no \<open>lookup\<close> entry, and a name
  of length between 1 and \<^verbatim>\<open>NAME_LEN\<close> other than \<open>.\<close>, \<open>lookup\<close> returns
  \<^verbatim>\<open>-ENOTDIR\<close>. The code does not: the assertion on the entry comes first and fails.
\<close>

theorem lookup_asserts_on_missing_operation:
  "S_ISDIR (vn_mode (vnodes s0 0)) \<and> vop_lookup (vn_ops env_nolookup 0) = None \<and>
   lookup env_nolookup 0 ''x'' 1 s0 = Inl (Assertion_failed ''dir->vn_ops->lookup'')"
  by (simp add: lookup_def S_ISDIR_def ramfs_defs)

section \<open>The root path\<close>

text \<open>
  Claim C10. Resolving \<open>/\<close> succeeds. \<open>dir_namev\<close> returns the root vnode as parent
  with an empty basename of length 0, and the root's reference count one higher;
  \<open>open_namev\<close> without flags, through the empty-name case of \<open>lookup\<close>, returns the
  root vnode itself, its reference count one higher over the whole call. The root is a
  directory, and \<^verbatim>\<open>MAXPATHLEN\<close> admits a path of one character.
\<close>

theorem root_path_resolves:
  assumes "1 \<le> MAXPATHLEN env" and "S_ISDIR (vn_mode (vnodes s (vfs_root_vn s)))"
  shows "dir_namev env ''/'' base s = Inr (0, Some (vfs_root_vn s), [], 0, vref (vfs_root_vn s) s)
       \<and> vn_refcount (vnodes (vref (vfs_root_vn s) s) (vfs_root_vn s))
           = vn_refcount (vnodes s (vfs_root_vn s)) + 1
       \<and> (\<exists>s'. open_namev env ''/'' 0 base s = Inr (0, Some (vfs_root_vn s), s')
             \<and> vn_refcount (vnodes s' (vfs_root_vn s)) = vn_refcount (vnodes s (vfs_root_vn s)) + 1
             \<and> trace s' = trace s @ [Vref (vfs_root_vn s), Lock, Vref (vfs_root_vn s),
                                      Vput (vfs_root_vn s), Unlock])"
  using assms
  by (simp add: open_namev_def dir_namev_def dir_namev_loop.simps lookup_def extern_defs)

theorem root_path_resolves_witness:
  "1 \<le> MAXPATHLEN env0 \<and> S_ISDIR (vn_mode (vnodes s0 (vfs_root_vn s0)))
   \<and> dir_namev env0 ''/'' None s0 = Inr (0, Some (vfs_root_vn s0), [], 0, vref (vfs_root_vn s0) s0)
   \<and> vn_refcount (vnodes (vref (vfs_root_vn s0) s0) (vfs_root_vn s0))
           = vn_refcount (vnodes s0 (vfs_root_vn s0)) + 1
   \<and> (\<exists>s'. open_namev env0 ''/'' 0 None s0 = Inr (0, Some (vfs_root_vn s0), s')
         \<and> vn_refcount (vnodes s' (vfs_root_vn s0)) = vn_refcount (vnodes s0 (vfs_root_vn s0)) + 1
         \<and> trace s' = trace s0 @ [Vref (vfs_root_vn s0), Lock, Vref (vfs_root_vn s0),
                                   Vput (vfs_root_vn s0), Unlock])"
proof -
  have h: "1 \<le> MAXPATHLEN env0" "S_ISDIR (vn_mode (vnodes s0 (vfs_root_vn s0)))"
    by (simp_all add: env0_def s0_def S_ISDIR_def)
  from root_path_resolves [OF h, of None] h show ?thesis by blast
qed

end
